theory Spec2Isabelle
  imports Main "HOL-Library.Word"
begin

section \<open>Outlook-to-Airtable task pane: attachment delivery, link discovery, reference resolution\<close>

text \<open>
  A shallow embedding of the non-trivial functions of \<^verbatim>\<open>src/taskpane/taskpane.ts\<close>.
  JavaScript strings are modelled as \<^typ>\<open>string\<close>; a \<^typ>\<open>char\<close> stands for one code unit
  below 256, which is exact for the binary strings of \<^verbatim>\<open>btoa\<close>/\<^verbatim>\<open>atob\<close> and for ASCII text.
  A \<^verbatim>\<open>Uint8Array\<close> is a list of 8-bit words. An exception is a value of type \<open>exn\<close>
  on the left of a sum.
\<close>

subsection \<open>Content encoder\<close>

type_synonym byte = "8 word"

text \<open>
  \<^verbatim>\<open>btoa\<close> and \<^verbatim>\<open>atob\<close> are built-ins of the host platform. They are modelled after the
  HTML standard: \<^verbatim>\<open>btoa\<close> is RFC 4648 base64 with padding, \<^verbatim>\<open>atob\<close> is the
  forgiving-base64 decode (ASCII whitespace removed, up to two trailing \<^verbatim>\<open>=\<close> removed when
  the length is a multiple of four, failure on length 1 modulo 4 or on a character outside
  the alphabet, the trailing 12 or 18 bits cut down to whole bytes).
\<close>

datatype exn = NetworkError | BodyError | SyntaxError | TypeError | InvalidCharacterError

definition base64_alphabet :: string where
  "base64_alphabet = ''ABCDEFGHIJKLMNOPQRSTUVWXYZabcdefghijklmnopqrstuvwxyz0123456789+/''"

definition b64_char :: "nat \<Rightarrow> char" where
  "b64_char n = base64_alphabet ! n"

fun index_of :: "'a \<Rightarrow> 'a list \<Rightarrow> nat option" where
  "index_of c [] = None"
| "index_of c (x # xs) = (if c = x then Some 0 else map_option Suc (index_of c xs))"

definition b64_index :: "char \<Rightarrow> nat option" where
  "b64_index c = index_of c base64_alphabet"

fun btoa_bytes :: "nat list \<Rightarrow> string" where
  "btoa_bytes (a # b # c # rest) =
     [b64_char (a div 4), b64_char (a mod 4 * 16 + b div 16),
      b64_char (b mod 16 * 4 + c div 64), b64_char (c mod 64)] @ btoa_bytes rest"
| "btoa_bytes [a, b] =
     [b64_char (a div 4), b64_char (a mod 4 * 16 + b div 16), b64_char (b mod 16 * 4), CHR ''='']"
| "btoa_bytes [a] = [b64_char (a div 4), b64_char (a mod 4 * 16), CHR ''='', CHR ''='']"
| "btoa_bytes [] = []"

definition btoa :: "string \<Rightarrow> string" where
  "btoa s = btoa_bytes (map of_char s)"

definition ascii_whitespace :: "char \<Rightarrow> bool" where
  "ascii_whitespace c = (of_char c \<in> {9, 10, 12, 13, 32 :: nat})"

definition strip_padding :: "string \<Rightarrow> string" where
  "strip_padding d =
     (if length d mod 4 = 0
      then (case rev d of
              c1 # c2 # r \<Rightarrow> if c1 = CHR ''='' then (if c2 = CHR ''='' then rev r else rev (c2 # r)) else d
            | _ \<Rightarrow> d)
      else d)"

fun decode_sextets :: "nat list \<Rightarrow> nat list" where
  "decode_sextets (a # b # c # d # rest) =
     [a * 4 + b div 16, b mod 16 * 16 + c div 4, c mod 4 * 64 + d] @ decode_sextets rest"
| "decode_sextets [a, b, c] = [a * 4 + b div 16, b mod 16 * 16 + c div 4]"
| "decode_sextets [a, b] = [a * 4 + b div 16]"
| "decode_sextets _ = []"

definition atob :: "string \<Rightarrow> exn + string" where
  "atob s =
     (let d = strip_padding (filter (\<lambda>c. \<not> ascii_whitespace c) s) in
      if length d mod 4 = 1 then Inl InvalidCharacterError
      else (case those (map b64_index d) of
              None \<Rightarrow> Inl InvalidCharacterError
            | Some sx \<Rightarrow> Inr (map char_of (decode_sextets sx))))"

text \<open>
  \<^verbatim>\<open>arrayBufferToBase64\<close>: the \<^verbatim>\<open>for\<close> loop walks the buffer in chunks of \<^verbatim>\<open>0x8000\<close> bytes,
  \<^verbatim>\<open>String.fromCharCode.apply\<close> turns each chunk into characters, and the joined binary
  string goes through \<^verbatim>\<open>btoa\<close>.
\<close>

definition chunkSize :: nat where
  "chunkSize = 0x8000"

definition subarray :: "byte list \<Rightarrow> nat \<Rightarrow> nat \<Rightarrow> byte list" where
  "subarray bytes b e = take (e - b) (drop b bytes)"

definition fromCharCode :: "byte list \<Rightarrow> string" where
  "fromCharCode codes = map (\<lambda>b. char_of (unat b)) codes"

function arrayBufferToBase64_loop :: "byte list \<Rightarrow> nat \<Rightarrow> string \<Rightarrow> string" where
  "arrayBufferToBase64_loop bytes offset binary =
     (if offset < length bytes
      then arrayBufferToBase64_loop bytes (offset + chunkSize)
             (binary @ fromCharCode (subarray bytes offset (offset + chunkSize)))
      else binary)"
  by pat_completeness auto
termination
  by (relation "measure (\<lambda>(bytes, offset, binary). length bytes - offset)")
     (auto simp: chunkSize_def)

declare arrayBufferToBase64_loop.simps [simp del]

definition arrayBufferToBase64 :: "byte list \<Rightarrow> string" where
  "arrayBufferToBase64 buffer = btoa (arrayBufferToBase64_loop buffer 0 [])"

text \<open>
  \<^verbatim>\<open>base64ToArrayBuffer\<close>: \<^verbatim>\<open>atob\<close> may throw; otherwise every character code is stored
  into the \<^verbatim>\<open>Uint8Array\<close> (a store into a byte array keeps the value modulo 256).
\<close>

definition base64ToArrayBuffer :: "string \<Rightarrow> exn + byte list" where
  "base64ToArrayBuffer base64 =
     (case atob base64 of
        Inl e \<Rightarrow> Inl e
      | Inr binaryString \<Rightarrow> Inr (map (\<lambda>c. word_of_nat (of_char c)) binaryString))"

subsection \<open>String operations\<close>

text \<open>
  \<^verbatim>\<open>startsWith\<close>, \<^verbatim>\<open>endsWith\<close>, \<^verbatim>\<open>includes\<close> and \<^verbatim>\<open>toLowerCase\<close> of JavaScript strings.
  Lower-casing covers the code units below 256: the ASCII capitals and the Latin-1 capitals
  \<^verbatim>\<open>U+00C0\<close> to \<^verbatim>\<open>U+00DE\<close> except the multiplication sign.
\<close>

fun startsWith :: "string \<Rightarrow> string \<Rightarrow> bool" where
  "startsWith s [] = True"
| "startsWith [] (p # ps) = False"
| "startsWith (c # cs) (p # ps) = (c = p \<and> startsWith cs ps)"

definition endsWith :: "string \<Rightarrow> string \<Rightarrow> bool" where
  "endsWith s p = startsWith (rev s) (rev p)"

fun str_includes :: "string \<Rightarrow> string \<Rightarrow> bool" where
  "str_includes [] p = (p = [])"
| "str_includes (c # cs) p = (if startsWith (c # cs) p then True else str_includes cs p)"

definition lower_char :: "char \<Rightarrow> char" where
  "lower_char c =
     (let n = (of_char c :: nat) in
      if (65 \<le> n \<and> n \<le> 90) \<or> (192 \<le> n \<and> n \<le> 222 \<and> n \<noteq> 215) then char_of (n + 32) else c)"

definition toLowerCase :: "string \<Rightarrow> string" where
  "toLowerCase s = map lower_char s"

text \<open>The characters that the regular-expression class \<^verbatim>\<open>\s\<close> matches, below 256.\<close>

definition js_whitespace :: "char \<Rightarrow> bool" where
  "js_whitespace c = (of_char c \<in> {9, 10, 11, 12, 13, 32, 160 :: nat})"

text \<open>\<^verbatim>\<open>Array.from(new Set(xs))\<close>: the distinct elements in order of first appearance.\<close>

fun arrayFromSet :: "'a list \<Rightarrow> 'a list" where
  "arrayFromSet [] = []"
| "arrayFromSet (x # xs) = x # arrayFromSet (filter (\<lambda>y. y \<noteq> x) xs)"

subsection \<open>Link extractor\<close>

definition limitBodyText :: "string \<Rightarrow> nat \<Rightarrow> string" where
  "limitBodyText text maxLength =
     (if text = [] then []
      else if length text \<le> maxLength then text
      else take maxLength text)"

text \<open>
  The regular expression \<^verbatim>\<open>/https?:\/\/\S+/gim\<close>. \<open>match_url_at\<close> is one match attempt at the
  start of the text: \<^verbatim>\<open>http\<close> in either case, an optional \<^verbatim>\<open>s\<close>, \<^verbatim>\<open>://\<close>, then as many
  non-whitespace characters as there are, at least one. \<open>match_urls\<close> is the global match:
  the attempts move through the text from left to right and resume after each match.
\<close>

definition match_url_at :: "string \<Rightarrow> string option" where
  "match_url_at s =
     (if map lower_char (take 4 s) = ''http''
      then (let r = drop 4 s;
                k = (case r of c # t \<Rightarrow> if lower_char c = CHR ''s'' then (1::nat) else 0 | [] \<Rightarrow> 0);
                r' = drop k r
            in if startsWith r' ''://''
               then (let tail = takeWhile (\<lambda>c. \<not> js_whitespace c) (drop 3 r')
                     in if tail = [] then None else Some (take (4 + k + 3 + length tail) s))
               else None)
      else None)"

fun match_urls :: "string \<Rightarrow> string list" where
  "match_urls [] = []"
| "match_urls (c # cs) =
     (case match_url_at (c # cs) of
        None \<Rightarrow> match_urls cs
      | Some m \<Rightarrow> m # match_urls (drop (length m - 1) cs))"

text \<open>\<^verbatim>\<open>m.replace(/[).,]+$/, "")\<close>: the trailing run of \<^verbatim>\<open>)\<close>, \<^verbatim>\<open>.\<close> and \<^verbatim>\<open>,\<close> is removed.\<close>

definition strip_trailing_punctuation :: "string \<Rightarrow> string" where
  "strip_trailing_punctuation m =
     rev (dropWhile (\<lambda>c. c = CHR '')'' \<or> c = CHR ''.'' \<or> c = CHR '','') (rev m))"

definition sigDomains :: "string list" where
  "sigDomains = [''linkedin.com'', ''facebook.com'', ''instagram.com'', ''twitter.com'',
                 ''youtube.com'', ''vimeo.com'']"

definition image_suffix :: "string \<Rightarrow> bool" where
  "image_suffix lower =
     (endsWith lower ''.png'' \<or> endsWith lower ''.jpg'' \<or> endsWith lower ''.jpeg'' \<or> endsWith lower ''.gif'')"

definition filterLink :: "string \<Rightarrow> nat \<Rightarrow> bool" where
  "filterLink url count =
     (let lower = toLowerCase url in
      if str_includes lower ''safelinks.protection.outlook.com'' then False
      else if str_includes lower ''cid:'' then False
      else if image_suffix lower \<and> (str_includes lower ''signature'' \<or> str_includes lower ''logo'')
        then False
      else if count > 1 \<and> list_ex (\<lambda>d. str_includes lower d) sigDomains then False
      else True)"

text \<open>
  \<^verbatim>\<open>counts[cleaned] = (counts[cleaned] || 0) + 1\<close> over all matches; the keys of the object
  are the cleaned matches, which all begin with \<^verbatim>\<open>http\<close>.
\<close>

definition count_link :: "string \<Rightarrow> (string \<rightharpoonup> nat) \<Rightarrow> (string \<rightharpoonup> nat)" where
  "count_link m counts =
     (let cleaned = strip_trailing_punctuation m
      in counts(cleaned \<mapsto> (case counts cleaned of None \<Rightarrow> 0 | Some n \<Rightarrow> n) + 1))"

definition count_or_one :: "(string \<rightharpoonup> nat) \<Rightarrow> string \<Rightarrow> nat" where
  "count_or_one counts url = (case counts url of None \<Rightarrow> 1 | Some n \<Rightarrow> if n = 0 then 1 else n)"

text \<open>
  \<^verbatim>\<open>getLinksFromBody\<close>. The host's \<^verbatim>\<open>getBodyAsText\<close> either resolves with the body text or
  rejects; a rejection leaves \<^verbatim>\<open>getLinksFromBody\<close> rejected.
\<close>

definition getLinksFromBody :: "exn + string \<Rightarrow> exn + string list" where
  "getLinksFromBody bodyResult =
     (case bodyResult of
        Inl e \<Rightarrow> Inl e
      | Inr text \<Rightarrow>
          (let body = limitBodyText text 12000;
               matches = match_urls body;
               counts = fold count_link matches Map.empty;
               cleaned = filter (\<lambda>url. filterLink url (count_or_one counts url))
                           (map strip_trailing_punctuation matches)
           in Inr (arrayFromSet cleaned)))"

subsection \<open>Title resolver\<close>

text \<open>
  The two fields of a parsed \<^verbatim>\<open>URL\<close> object that the code reads. The \<^verbatim>\<open>URL\<close> constructor is a
  built-in of the host platform: \<open>getLinkTitle\<close> takes it as the parameter \<open>newURL\<close>, with
  \<open>None\<close> for the \<^verbatim>\<open>TypeError\<close> it throws on input that does not parse. The title cache is
  the map \<open>linkTitleCache\<close>; links come from \<open>getLinksFromBody\<close> and begin with \<^verbatim>\<open>http\<close>.
\<close>

record URL =
  hostname :: string
  pathname :: string

definition getLinkTitle :: "(string \<Rightarrow> URL option) \<Rightarrow> (string \<rightharpoonup> string) \<Rightarrow> string \<Rightarrow> string" where
  "getLinkTitle newURL linkTitleCache link =
     (case (case linkTitleCache link of Some t \<Rightarrow> if t = [] then None else Some t | None \<Rightarrow> None) of
        Some t \<Rightarrow> t
      | None \<Rightarrow>
          (case newURL link of
             None \<Rightarrow> link
           | Some u \<Rightarrow>
               (let path = (if pathname u \<noteq> [] \<and> pathname u \<noteq> ''/'' then pathname u else [])
                in hostname u @ path)))"

text \<open>
  A reference \<^verbatim>\<open>URL\<close> parser for plain links, after the URL standard: the scheme \<^verbatim>\<open>http://\<close>
  or \<^verbatim>\<open>https://\<close> in lower case, a host of dot-separated labels of lower-case letters and
  digits whose last label begins with a letter, and a path of segments of letters, digits,
  \<^verbatim>\<open>-\<close>, \<^verbatim>\<open>_\<close> and \<^verbatim>\<open>.\<close> that do not begin with a dot. On these the standard's parser returns
  the host and the path as they are written, with \<^verbatim>\<open>/\<close> for an empty path. Any other input
  is outside its domain and gives \<open>None\<close>.
\<close>

fun split_on :: "char \<Rightarrow> string \<Rightarrow> string list" where
  "split_on d [] = [[]]"
| "split_on d (c # cs) =
     (if c = d then [] # split_on d cs
      else (case split_on d cs of x # xs \<Rightarrow> (c # x) # xs | [] \<Rightarrow> [[c]]))"

definition lower_letter :: "char \<Rightarrow> bool" where
  "lower_letter c = (97 \<le> (of_char c :: nat) \<and> (of_char c :: nat) \<le> 122)"

definition upper_letter :: "char \<Rightarrow> bool" where
  "upper_letter c = (65 \<le> (of_char c :: nat) \<and> (of_char c :: nat) \<le> 90)"

definition digit_char :: "char \<Rightarrow> bool" where
  "digit_char c = (48 \<le> (of_char c :: nat) \<and> (of_char c :: nat) \<le> 57)"

definition plain_host :: "string \<Rightarrow> bool" where
  "plain_host h =
     (let labels = split_on (CHR ''.'') h
      in list_all (\<lambda>l. l \<noteq> [] \<and> list_all (\<lambda>c. lower_letter c \<or> digit_char c) l) labels
         \<and> (case last labels of c # _ \<Rightarrow> lower_letter c | [] \<Rightarrow> False))"

definition plain_path :: "string \<Rightarrow> bool" where
  "plain_path p =
     list_all (\<lambda>seg. (case seg of c # _ \<Rightarrow> c \<noteq> CHR ''.'' | [] \<Rightarrow> True)
                 \<and> list_all (\<lambda>c. lower_letter c \<or> upper_letter c \<or> digit_char c
                                  \<or> c = CHR ''-'' \<or> c = CHR ''_'' \<or> c = CHR ''.'') seg)
       (split_on (CHR ''/'') p)"

definition parseHttpUrl :: "string \<Rightarrow> URL option" where
  "parseHttpUrl s =
     (case (if startsWith s ''https://'' then Some (drop 8 s)
            else if startsWith s ''http://'' then Some (drop 7 s) else None) of
        None \<Rightarrow> None
      | Some r \<Rightarrow>
          (let host = takeWhile (\<lambda>c. c \<noteq> CHR ''/'') r;
               path = dropWhile (\<lambda>c. c \<noteq> CHR ''/'') r
           in if plain_host host \<and> plain_path path
              then Some \<lparr>hostname = host, pathname = (if path = [] then ''/'' else path)\<rparr>
              else None))"

subsection \<open>Token-based reference resolver\<close>

record AirtableProjectOption =
  opt_id :: string
  opt_name :: string
  opt_email :: "string option"

text \<open>The predicate of \<^verbatim>\<open>externalOptions.find\<close> in \<^verbatim>\<open>resolveExternalAssignees\<close>.\<close>

definition option_matches :: "string \<Rightarrow> AirtableProjectOption \<Rightarrow> bool" where
  "option_matches entry opt =
     (if opt_id opt = entry then True
      else if toLowerCase (opt_name opt) = toLowerCase entry then True
      else (case opt_email opt of
              None \<Rightarrow> False
            | Some e \<Rightarrow> e \<noteq> [] \<and> toLowerCase e = toLowerCase entry))"

definition resolve_entry :: "AirtableProjectOption list \<Rightarrow> string \<Rightarrow> string list \<Rightarrow> string list" where
  "resolve_entry externalOptions entry ids =
     (if startsWith entry ''rec'' then ids @ [entry]
      else (case find (option_matches entry) externalOptions of
              Some option \<Rightarrow> ids @ [opt_id option]
            | None \<Rightarrow> ids))"

definition resolveExternalAssignees :: "AirtableProjectOption list \<Rightarrow> string list \<Rightarrow> string list" where
  "resolveExternalAssignees externalOptions rawEntries =
     (if rawEntries = [] then []
      else (let ids = fold (resolve_entry externalOptions) rawEntries []
            in filter (\<lambda>id. id \<noteq> [] \<and> startsWith id ''rec'') (arrayFromSet ids)))"

subsection \<open>Credential broker\<close>

text \<open>
  A JavaScript value that is either a string or absent (\<^verbatim>\<open>null\<close>, \<^verbatim>\<open>undefined\<close>, a missing
  property) is a \<^typ>\<open>string option\<close>; it is truthy when it is a non-empty string.
\<close>

definition truthy :: "string option \<Rightarrow> bool" where
  "truthy v = (case v of None \<Rightarrow> False | Some s \<Rightarrow> s \<noteq> [])"

text \<open>
  What \<^verbatim>\<open>getGraphToken\<close> meets outside the program: the three configuration strings and the
  outcome of each call into the authentication library. A call either throws or returns a
  result whose \<^verbatim>\<open>accessToken\<close> is read with \<^verbatim>\<open>?.\<close> (\<open>None\<close> when the result or the
  property is missing).
\<close>

record msal_env =
  GRAPH_CLIENT_ID :: string
  GRAPH_REDIRECT_URI :: string
  GRAPH_TENANT_ID :: string
  newPublicClientApplication :: "exn option"
  handleRedirectPromise :: "exn + string option"
  getAllAccounts :: "exn + nat"
  acquireTokenSilent :: "exn + string option"
  acquireTokenPopup :: "exn + string option"

text \<open>The module variables \<^verbatim>\<open>cachedGraphToken\<close> and \<^verbatim>\<open>msalInstance\<close> (set or not).\<close>

record token_state =
  cachedGraphToken :: "string option"
  msalInstance :: bool

definition acquire_popup :: "msal_env \<Rightarrow> token_state \<Rightarrow> string option \<times> token_state" where
  "acquire_popup env st =
     (case acquireTokenPopup env of
        Inl e \<Rightarrow> (None, st)
      | Inr popupResult \<Rightarrow>
          if truthy popupResult then (popupResult, st\<lparr>cachedGraphToken := popupResult\<rparr>)
          else (None, st))"

definition getGraphToken :: "msal_env \<Rightarrow> token_state \<Rightarrow> string option \<times> token_state" where
  "getGraphToken env st =
     (if truthy (cachedGraphToken st) then (cachedGraphToken st, st)
      else if GRAPH_CLIENT_ID env = [] \<or> GRAPH_REDIRECT_URI env = [] \<or> GRAPH_TENANT_ID env = []
        then (None, st)
      else (case (if msalInstance st then None else newPublicClientApplication env) of
              Some e \<Rightarrow> (None, st)
            | None \<Rightarrow>
                (let st1 = st\<lparr>msalInstance := True\<rparr> in
                 case handleRedirectPromise env of
                   Inl e \<Rightarrow> (None, st1)
                 | Inr redirectResult \<Rightarrow>
                     if truthy redirectResult
                     then (redirectResult, st1\<lparr>cachedGraphToken := redirectResult\<rparr>)
                     else (case getAllAccounts env of
                             Inl e \<Rightarrow> (None, st1)
                           | Inr accounts \<Rightarrow>
                               if accounts > 0
                               then (case acquireTokenSilent env of
                                       Inl e \<Rightarrow> (None, st1)
                                     | Inr silentResult \<Rightarrow>
                                         if truthy silentResult
                                         then (silentResult, st1\<lparr>cachedGraphToken := silentResult\<rparr>)
                                         else acquire_popup env st1)
                               else acquire_popup env st1))))"

subsection \<open>Upload to the file-hosting service\<close>

record AirtableAttachmentInput =
  filename :: string
  url :: string

text \<open>
  A \<^verbatim>\<open>fetch\<close> either rejects or resolves with a response: its \<^verbatim>\<open>ok\<close> flag and its body.
  Reading the body can fail (\<open>Unreadable\<close>); a readable body is no JSON text, the JSON
  \<^verbatim>\<open>null\<close>, or a JSON value, of which the model keeps the properties the code reads.
\<close>

datatype 'a body = Unreadable | NotJson | JsonNull | Json 'a

datatype 'a response = Rejected | Response bool "'a body"

text \<open>The uploaded drive item: its \<^verbatim>\<open>id\<close> and \<^verbatim>\<open>webUrl\<close>.\<close>

record item_json =
  item_id :: "string option"
  item_webUrl :: "string option"

text \<open>
  The file-hosting service as the program sees it, one function per request, from the
  request's parameters to the answer: the upload session (file name, token; the body's
  \<^verbatim>\<open>uploadUrl\<close>), the upload (upload URL, bytes; the drive item), the item metadata (item ID,
  token; the body's \<^verbatim>\<open>@microsoft.graph.downloadUrl\<close>), the sharing link (item ID, scope,
  token; the body's \<^verbatim>\<open>link.webUrl\<close>). \<open>dateNow\<close> is \<^verbatim>\<open>Date.now()\<close> in decimal digits.
\<close>

record graph_env =
  dateNow :: string
  createUploadSession :: "string \<Rightarrow> string \<Rightarrow> string option response"
  putContent :: "string option \<Rightarrow> byte list \<Rightarrow> item_json response"
  getItem :: "string \<Rightarrow> string \<Rightarrow> string option response"
  createLink :: "string \<Rightarrow> string \<Rightarrow> string \<Rightarrow> string option response"

text \<open>The requests the program sends, recorded in the order they are sent.\<close>

datatype request =
    GetAttachmentContent string
  | CreateUploadSession string
  | PutContent "string option" "byte list"
  | GetItem string
  | CreateLink string string

text \<open>\<^verbatim>\<open>await resp.text()\<close> and \<^verbatim>\<open>await resp.json()\<close>; \<open>Inr None\<close> is the JSON \<^verbatim>\<open>null\<close>.\<close>

definition read_text :: "'a body \<Rightarrow> exn option" where
  "read_text b = (case b of Unreadable \<Rightarrow> Some BodyError | _ \<Rightarrow> None)"

definition read_json :: "'a body \<Rightarrow> exn + 'a option" where
  "read_json b =
     (case b of
        Unreadable \<Rightarrow> Inl BodyError
      | NotJson \<Rightarrow> Inl SyntaxError
      | JsonNull \<Rightarrow> Inr None
      | Json v \<Rightarrow> Inr (Some v))"

definition safeName :: "graph_env \<Rightarrow> string \<Rightarrow> string" where
  "safeName env fname = (if fname \<noteq> [] then fname else ''upload-'' @ dateNow env)"

text \<open>
  The \<^verbatim>\<open>try\<close> block that asks for the direct download URL: whatever goes wrong inside is
  caught, and the function goes on to the sharing links.
\<close>

definition directDownloadUrl :: "graph_env \<Rightarrow> string \<Rightarrow> string \<Rightarrow> string option" where
  "directDownloadUrl env itemId graphToken =
     (case getItem env itemId graphToken of
        Rejected \<Rightarrow> None
      | Response ok b \<Rightarrow>
          if ok
          then (case read_json b of
                  Inl e \<Rightarrow> None
                | Inr dlBody \<Rightarrow>
                    (case dlBody of
                       None \<Rightarrow> None
                     | Some dlUrl \<Rightarrow> if truthy dlUrl then dlUrl else None))
          else None)"

definition shareScopes :: "string list" where
  "shareScopes = [''anonymous'', ''organization'']"

text \<open>
  The loop over \<^verbatim>\<open>shareScopes\<close> and the lines after it. Nothing here is inside a \<^verbatim>\<open>try\<close>:
  a rejected request or an unreadable body leaves the function with an exception.
\<close>

fun shareLink_loop ::
  "graph_env \<Rightarrow> string \<Rightarrow> string \<Rightarrow> string \<Rightarrow> string option \<Rightarrow> string list
     \<Rightarrow> (exn + AirtableAttachmentInput option) \<times> request list" where
  "shareLink_loop env fname itemId graphToken webUrl [] =
     (case webUrl of
        None \<Rightarrow> (Inr None, [])
      | Some w \<Rightarrow> if w \<noteq> [] then (Inr (Some \<lparr>filename = fname, url = w\<rparr>), []) else (Inr None, []))"
| "shareLink_loop env fname itemId graphToken webUrl (scope # scopes) =
     (let (r, reqs) =
        (case createLink env itemId scope graphToken of
           Rejected \<Rightarrow> (Inl NetworkError, [])
         | Response ok b \<Rightarrow>
             if \<not> ok
             then (case read_text b of
                     Some e \<Rightarrow> (Inl e, [])
                   | None \<Rightarrow> shareLink_loop env fname itemId graphToken webUrl scopes)
             else (case read_json b of
                     Inl e \<Rightarrow> (Inl e, [])
                   | Inr linkBody \<Rightarrow>
                       (let link = (case linkBody of None \<Rightarrow> None | Some l \<Rightarrow> l);
                            u = (if truthy link then link else webUrl)
                        in case u of
                             None \<Rightarrow> shareLink_loop env fname itemId graphToken webUrl scopes
                           | Some v \<Rightarrow>
                               if v \<noteq> [] then (Inr (Some \<lparr>filename = fname, url = v\<rparr>), [])
                               else shareLink_loop env fname itemId graphToken webUrl scopes)))
      in (r, CreateLink itemId scope # reqs))"

definition uploadToOneDriveAndShare ::
  "graph_env \<Rightarrow> string \<Rightarrow> string \<Rightarrow> string
     \<Rightarrow> (exn + AirtableAttachmentInput option) \<times> request list" where
  "uploadToOneDriveAndShare env fname base64 graphToken =
     (let session = [CreateUploadSession (safeName env fname)] in
      case createUploadSession env (safeName env fname) graphToken of
        Rejected \<Rightarrow> (Inl NetworkError, session)
      | Response ok sb \<Rightarrow>
          if \<not> ok
          then (case read_text sb of Some e \<Rightarrow> (Inl e, session) | None \<Rightarrow> (Inr None, session))
          else (case read_json sb of
                  Inl e \<Rightarrow> (Inl e, session)
                | Inr None \<Rightarrow> (Inl TypeError, session)
                | Inr (Some uploadUrl) \<Rightarrow>
                    (case base64ToArrayBuffer base64 of
                       Inl e \<Rightarrow> (Inl e, session)
                     | Inr buffer \<Rightarrow>
                         (let upload = session @ [PutContent uploadUrl buffer] in
                          case putContent env uploadUrl buffer of
                            Rejected \<Rightarrow> (Inl NetworkError, upload)
                          | Response ok' ub \<Rightarrow>
                              if \<not> ok'
                              then (case read_text ub of
                                      Some e \<Rightarrow> (Inl e, upload)
                                    | None \<Rightarrow> (Inr None, upload))
                              else (case read_json ub of
                                      Inl e \<Rightarrow> (Inl e, upload)
                                    | Inr uploaded \<Rightarrow>
                                        (case (case uploaded of None \<Rightarrow> None | Some i \<Rightarrow> item_id i) of
                                           None \<Rightarrow> (Inr None, upload)
                                         | Some itemId \<Rightarrow>
                                             if itemId = [] then (Inr None, upload)
                                             else (case directDownloadUrl env itemId graphToken of
                                                     Some dlUrl \<Rightarrow>
                                                       (Inr (Some \<lparr>filename = fname, url = dlUrl\<rparr>),
                                                        upload @ [GetItem itemId])
                                                   | None \<Rightarrow>
                                                       (let (r, reqs) =
                                                          shareLink_loop env fname itemId graphToken
                                                            (case uploaded of None \<Rightarrow> None | Some i \<Rightarrow> item_webUrl i)
                                                            shareScopes
                                                        in (r, upload @ GetItem itemId # reqs)))))))))"

subsection \<open>Attachment delivery pipeline\<close>

record OutlookAttachmentPreview =
  att_id :: string
  att_name :: string
  contentType :: string
  att_size :: nat
  isInline :: bool

text \<open>
  The host mail API, from the attachment ID to what the call of \<^verbatim>\<open>getAttachmentContentAsync\<close>
  does: it throws at once (\<open>Inl\<close>), or it answers through its callback with a status,
  success with a format and the content, or failure. The call is made inside the executor
  of a \<^verbatim>\<open>new Promise\<close> that only ever resolves: the callback turns the answer into one of
  three shapes, and an exception of the call itself rejects the promise.
\<close>

datatype AttachmentContentFormat = Base64 | Url | Eml | ICalendar

datatype async_result = Succeeded AttachmentContentFormat string | Failed

datatype attachment_content = ContentUrl string | ContentBase64 string | Unsupported

definition resolve_content :: "async_result \<Rightarrow> attachment_content" where
  "resolve_content result =
     (case result of
        Succeeded format content \<Rightarrow>
          if format = Url \<and> content \<noteq> [] then ContentUrl content
          else if format = Base64 \<and> content \<noteq> [] then ContentBase64 content
          else Unsupported
      | Failed \<Rightarrow> Unsupported)"

definition getAttachmentContent ::
  "(string \<Rightarrow> exn + async_result) \<Rightarrow> string \<Rightarrow> exn + attachment_content" where
  "getAttachmentContent mailbox i =
     (case mailbox i of
        Inl e \<Rightarrow> Inl e
      | Inr result \<Rightarrow> Inr (resolve_content result))"

text \<open>
  The \<^verbatim>\<open>for\<close> loop of \<^verbatim>\<open>prepareAirtableAttachments\<close>. It returns the \<^verbatim>\<open>results\<close> array, or the
  exception that ends it, and the requests made. The \<^verbatim>\<open>await\<close> of the content is outside
  every \<^verbatim>\<open>try\<close>: a rejected promise ends the loop and the function, and the results
  gathered so far are lost. The \<^verbatim>\<open>catch\<close> around the upload is the inner \<open>Inl\<close> branch.
\<close>

fun attachments_loop ::
  "(string \<Rightarrow> exn + async_result) \<Rightarrow> graph_env \<Rightarrow> string \<Rightarrow> OutlookAttachmentPreview list
     \<Rightarrow> AirtableAttachmentInput list \<Rightarrow> (exn + AirtableAttachmentInput list) \<times> request list" where
  "attachments_loop mailbox graph graphToken [] results = (Inr results, [])"
| "attachments_loop mailbox graph graphToken (attachment # rest) results =
     (case getAttachmentContent mailbox (att_id attachment) of
        Inl e \<Rightarrow> (Inl e, [GetAttachmentContent (att_id attachment)])
      | Inr (ContentUrl v) \<Rightarrow>
          (let (res, reqs) = attachments_loop mailbox graph graphToken rest
                               (results @ [\<lparr>filename = att_name attachment, url = v\<rparr>])
           in (res, GetAttachmentContent (att_id attachment) # reqs))
      | Inr (ContentBase64 v) \<Rightarrow>
          (let (up, sent) = uploadToOneDriveAndShare graph (att_name attachment) v graphToken;
               results' = (case up of
                             Inr (Some uploaded) \<Rightarrow> results @ [uploaded]
                           | Inr None \<Rightarrow> results
                           | Inl error \<Rightarrow> results);
               (res, reqs) = attachments_loop mailbox graph graphToken rest results'
           in (res, GetAttachmentContent (att_id attachment) # sent @ reqs))
      | Inr Unsupported \<Rightarrow>
          (let (res, reqs) = attachments_loop mailbox graph graphToken rest results
           in (res, GetAttachmentContent (att_id attachment) # reqs)))"

text \<open>
  \<^verbatim>\<open>prepareAirtableAttachments\<close> returns the delivered attachments or the exception it is
  rejected with, the requests made, and the module state that \<^verbatim>\<open>getGraphToken\<close> may have
  changed.
\<close>

definition prepareAirtableAttachments ::
  "msal_env \<Rightarrow> (string \<Rightarrow> exn + async_result) \<Rightarrow> graph_env \<Rightarrow> token_state
     \<Rightarrow> OutlookAttachmentPreview list
     \<Rightarrow> ((exn + AirtableAttachmentInput list) \<times> request list) \<times> token_state" where
  "prepareAirtableAttachments msal mailbox graph st selected =
     (if selected = [] then ((Inr [], []), st)
      else (let (graphToken, st') = getGraphToken msal st in
            case graphToken of
              None \<Rightarrow> ((Inr [], []), st')
            | Some t \<Rightarrow>
                if t = [] then ((Inr [], []), st')
                else (attachments_loop mailbox graph t selected [], st')))"



text \<open>
  One run after another: the results and the requests of the first, then those of the
  second; an exception of the first run ends both, an exception of the second comes after
  the requests of the first.
\<close>

definition append_batches ::
  "(exn + 'a list) \<times> request list \<Rightarrow> (exn + 'a list) \<times> request list
     \<Rightarrow> (exn + 'a list) \<times> request list" where
  "append_batches p q =
     (case fst p of
        Inl e \<Rightarrow> (Inl e, snd p)
      | Inr xs \<Rightarrow>
          (case fst q of
             Inl e \<Rightarrow> (Inl e, snd p @ snd q)
           | Inr ys \<Rightarrow> (Inr (xs @ ys), snd p @ snd q)))"

text \<open>
  Two answers to a sharing-link request that let the loop go on: a response that is not
  \<^verbatim>\<open>ok\<close> and whose text can be read, and an \<^verbatim>\<open>ok\<close> response without \<^verbatim>\<open>link.webUrl\<close>.
\<close>

definition refused :: "string option response \<Rightarrow> bool" where
  "refused r = (case r of Response ok b \<Rightarrow> (if ok then False else b \<noteq> Unreadable) | Rejected \<Rightarrow> False)"

definition no_link :: "string option response \<Rightarrow> bool" where
  "no_link r = (r = Response True JsonNull \<or> r = Response True (Json None) \<or> r = Response True (Json (Some [])))"

subsection \<open>Example environments\<close>

text \<open>
  Environments for the concrete instances of the theorems: a pane without configuration, a
  pane where the interactive login succeeds, a mailbox whose call throws for every
  attachment but five, and two
  file-hosting services that differ in the answer to the \<^verbatim>\<open>anonymous\<close> sharing request.
\<close>

definition no_config :: msal_env where
  "no_config = \<lparr>GRAPH_CLIENT_ID = [], GRAPH_REDIRECT_URI = [], GRAPH_TENANT_ID = ''common'',
      newPublicClientApplication = None, handleRedirectPromise = Inr None, getAllAccounts = Inr 0,
      acquireTokenSilent = Inr None, acquireTokenPopup = Inr None\<rparr>"

definition popup_login :: msal_env where
  "popup_login = \<lparr>GRAPH_CLIENT_ID = ''app'', GRAPH_REDIRECT_URI = ''https://pane/'',
      GRAPH_TENANT_ID = ''common'', newPublicClientApplication = None,
      handleRedirectPromise = Inr None, getAllAccounts = Inr 0,
      acquireTokenSilent = Inr None, acquireTokenPopup = Inr (Some ''tok'')\<rparr>"

definition fresh :: token_state where
  "fresh = \<lparr>cachedGraphToken = None, msalInstance = False\<rparr>"

definition att :: "string \<Rightarrow> string \<Rightarrow> OutlookAttachmentPreview" where
  "att i n = \<lparr>att_id = i, att_name = n, contentType = ''application/octet-stream'', att_size = 3,
      isInline = False\<rparr>"

definition example_mailbox :: "string \<Rightarrow> exn + async_result" where
  "example_mailbox i =
     (if i = ''1'' then Inr (Succeeded Url ''https://host/file'')
      else if i = ''2'' then Inr (Succeeded Base64 ''TWFu'')
      else if i = ''3'' then Inr (Succeeded Base64 ''not base64!'')
      else if i = ''4'' then Inr (Succeeded Url ''https://host/other'')
      else if i = ''5'' then Inr Failed
      else Inl TypeError)"

definition example_graph :: graph_env where
  "example_graph = \<lparr>dateNow = ''0'',
      createUploadSession = (\<lambda>n t. Response True (Json (Some ''https://up/1''))),
      putContent = (\<lambda>u b. Response True (Json \<lparr>item_id = Some ''item1'', item_webUrl = Some ''https://drive/web''\<rparr>)),
      getItem = (\<lambda>i t. Rejected),
      createLink = (\<lambda>i scope t. if scope = ''anonymous'' then Response True (Json (Some ''https://share/anon''))
                      else Response True (Json (Some ''https://share/org'')))\<rparr>"

definition bare_link_graph :: graph_env where
  "bare_link_graph = example_graph\<lparr>
      createLink := (\<lambda>i scope t. if scope = ''anonymous'' then Response True (Json None)
                      else Response True (Json (Some ''https://share/org'')))\<rparr>"

subsection \<open>Auxiliary functions used in the proofs\<close>

text \<open>The 6-bit groups and the padding that \<open>btoa_bytes\<close> produces, taken apart.\<close>

fun sextets_of :: "nat list \<Rightarrow> nat list" where
  "sextets_of (a # b # c # rest) =
     [a div 4, a mod 4 * 16 + b div 16, b mod 16 * 4 + c div 64, c mod 64] @ sextets_of rest"
| "sextets_of [a, b] = [a div 4, a mod 4 * 16 + b div 16, b mod 16 * 4]"
| "sextets_of [a] = [a div 4, a mod 4 * 16]"
| "sextets_of [] = []"

fun padding_of :: "nat list \<Rightarrow> string" where
  "padding_of (a # b # c # rest) = padding_of rest"
| "padding_of [a, b] = ''=''"
| "padding_of [a] = ''==''"
| "padding_of [] = []"

section \<open>Properties\<close>

subsection \<open>Base64 alphabet and arithmetic of the 6-bit regrouping\<close>

lemma alphabet_distinct: "distinct base64_alphabet"
  by (simp add: base64_alphabet_def)

lemma index_of_nth: "distinct xs \<Longrightarrow> n < length xs \<Longrightarrow> index_of (xs ! n) xs = Some n"
proof (induction xs arbitrary: n)
  case Nil then show ?case by simp
next
  case (Cons x xs)
  show ?case
  proof (cases n)
    case 0 then show ?thesis by simp
  next
    case (Suc m)
    with Cons.prems have "xs ! m \<noteq> x" "m < length xs" "distinct xs" by auto
    with Cons.IH[of m] Suc show ?thesis by simp
  qed
qed

lemma b64_index_char: "n < 64 \<Longrightarrow> b64_index (b64_char n) = Some n"
  unfolding b64_index_def b64_char_def
  by (rule index_of_nth[OF alphabet_distinct]) (simp add: base64_alphabet_def)

lemma alphabet_plain: "\<forall>c\<in>set base64_alphabet. \<not> ascii_whitespace c \<and> c \<noteq> CHR ''=''"
  by (simp add: base64_alphabet_def ascii_whitespace_def)

lemma b64_char_plain: "n < 64 \<Longrightarrow> \<not> ascii_whitespace (b64_char n) \<and> b64_char n \<noteq> CHR ''=''"
proof -
  assume "n < 64"
  then have "b64_char n \<in> set base64_alphabet"
    unfolding b64_char_def by (intro nth_mem) (simp add: base64_alphabet_def)
  with alphabet_plain show ?thesis by blast
qed

lemma sextet_bound1: "(a::nat) < 256 \<Longrightarrow> a div 4 < 64" by simp
lemma sextet_bound2: "(b::nat) < 256 \<Longrightarrow> a mod 4 * 16 + b div 16 < 64"
proof -
  assume "b < 256"
  then have "b div 16 < 16" by simp
  moreover have "a mod 4 < 4" by simp
  ultimately show ?thesis by linarith
qed
lemma sextet_bound3: "(c::nat) < 256 \<Longrightarrow> b mod 16 * 4 + c div 64 < 64"
proof -
  assume "c < 256"
  then have "c div 64 < 4" by simp
  moreover have "b mod 16 < 16" by simp
  ultimately show ?thesis by linarith
qed
lemma sextet_bound4: "(b::nat) mod 16 * 4 < 64"
proof -
  have "b mod 16 < 16" by simp
  then show ?thesis by linarith
qed
lemma sextet_bound5: "(a::nat) mod 4 * 16 < 64"
proof -
  have "a mod 4 < 4" by simp
  then show ?thesis by linarith
qed
lemma byte_div16_div16: "(b::nat) < 256 \<Longrightarrow> b div 16 div 16 = 0" by simp
lemma byte_div16_mod16: "(b::nat) < 256 \<Longrightarrow> b div 16 mod 16 = b div 16" by simp
lemma byte_div64_div4: "(c::nat) < 256 \<Longrightarrow> c div 64 div 4 = 0" by simp
lemma byte_div64_mod4: "(c::nat) < 256 \<Longrightarrow> c div 64 mod 4 = c div 64" by simp

lemma btoa_bytes_split: "btoa_bytes bs = map b64_char (sextets_of bs) @ padding_of bs"
  by (induction bs rule: btoa_bytes.induct) simp_all



lemma sextets_of_bound: "\<forall>b\<in>set bs. b < 256 \<Longrightarrow> \<forall>x\<in>set (sextets_of bs). x < 64"
  by (induction bs rule: sextets_of.induct) (auto simp: sextet_bound2 sextet_bound3 sextet_bound4 sextet_bound5)

lemma decode_sextets_of: "\<forall>b\<in>set bs. b < 256 \<Longrightarrow> decode_sextets (sextets_of bs) = bs"
  by (induction bs rule: sextets_of.induct) (auto simp: byte_div16_div16 byte_div16_mod16 byte_div64_div4 byte_div64_mod4)

lemma sextets_length: "length (sextets_of bs) mod 4 \<noteq> 1"
  by (induction bs rule: sextets_of.induct) simp_all

lemma padded_length: "(length (sextets_of bs) + length (padding_of bs)) mod 4 = 0"
  by (induction bs rule: sextets_of.induct) simp_all

lemma padding_cases: "padding_of bs = [] \<or> padding_of bs = ''='' \<or> padding_of bs = ''==''"
  by (induction bs rule: padding_of.induct) simp_all

lemma strip_padding_split:
  assumes "\<forall>c\<in>set xs. c \<noteq> CHR ''=''" "(length xs + length p) mod 4 = 0"
    "p = [] \<or> p = ''='' \<or> p = ''==''"
  shows "strip_padding (xs @ p) = xs"
proof -
  consider "p = []" | "p = ''=''" | "p = ''==''" using assms(3) by blast
  then show ?thesis
  proof cases
    case 1
    show ?thesis
    proof (cases "rev xs")
      case Nil then show ?thesis using 1 by (simp add: strip_padding_def)
    next
      case (Cons c r)
      then have "c \<in> set xs" by (metis list.set_intros(1) set_rev)
      with assms(1) have "c \<noteq> CHR ''=''" by blast
      with Cons 1 show ?thesis by (simp add: strip_padding_def split: list.splits)
    qed
  next
    case 2
    show ?thesis
    proof (cases "rev xs")
      case Nil then show ?thesis using 2 assms(2) by simp
    next
      case (Cons c r)
      then have "c \<in> set xs" by (metis list.set_intros(1) set_rev)
      with assms(1) have c: "c \<noteq> CHR ''=''" by blast
      from Cons have "xs = rev (c # r)" by (metis rev_rev_ident)
      with Cons 2 c assms(2) show ?thesis by (simp add: strip_padding_def)
    qed
  next
    case 3
    with assms(2) show ?thesis by (simp add: strip_padding_def)
  qed
qed

lemma those_map_b64: "\<forall>x\<in>set sx. x < 64 \<Longrightarrow> those (map b64_index (map b64_char sx)) = Some sx"
  by (induction sx) (simp_all add: b64_index_char)

lemma atob_btoa_bytes:
  assumes "\<forall>b\<in>set bs. b < 256"
  shows "atob (btoa_bytes bs) = Inr (map char_of bs)"
proof -
  let ?sx = "sextets_of bs"
  let ?body = "map b64_char ?sx"
  have small: "\<forall>x\<in>set ?sx. x < 64" using assms by (rule sextets_of_bound)
  have plain: "\<forall>c\<in>set ?body. \<not> ascii_whitespace c \<and> c \<noteq> CHR ''=''"
    using small b64_char_plain by auto
  have padws: "\<forall>c\<in>set (padding_of bs). \<not> ascii_whitespace c"
    using padding_cases[of bs] by (auto simp: ascii_whitespace_def)
  have "filter (\<lambda>c. \<not> ascii_whitespace c) (btoa_bytes bs) = ?body @ padding_of bs"
    using plain padws by (simp add: btoa_bytes_split)
  moreover have "strip_padding (?body @ padding_of bs) = ?body"
    using plain padded_length[of bs] padding_cases[of bs] by (intro strip_padding_split) auto
  ultimately have d: "strip_padding (filter (\<lambda>c. \<not> ascii_whitespace c) (btoa_bytes bs)) = ?body"
    by simp
  have len: "length ?body mod 4 \<noteq> 1" using sextets_length[of bs] by simp
  show ?thesis
    unfolding atob_def d Let_def
    using len those_map_b64[OF small] decode_sextets_of[OF assms] by simp
qed

lemma atob_btoa: "atob (btoa s) = Inr s"
proof -
  have "\<forall>b\<in>set (map of_char s). b < (256::nat)" by simp
  then have "atob (btoa_bytes (map of_char s)) = Inr (map char_of (map of_char s :: nat list))"
    by (rule atob_btoa_bytes)
  then show ?thesis by (simp add: btoa_def comp_def)
qed

subsection \<open>The chunked encoder\<close>

lemma subarray_chunk: "subarray bytes offset (offset + n) = take n (drop offset bytes)"
  by (simp add: subarray_def)

lemma arrayBufferToBase64_loop_eq:
  "arrayBufferToBase64_loop bytes offset binary = binary @ fromCharCode (drop offset bytes)"
proof (induction bytes offset binary rule: arrayBufferToBase64_loop.induct)
  case (1 bytes offset binary)
  show ?case
  proof (cases "offset < length bytes")
    case True
    have "take chunkSize (drop offset bytes) @ drop (offset + chunkSize) bytes = drop offset bytes"
      by (metis add.commute append_take_drop_id drop_drop)
    then have "fromCharCode (take chunkSize (drop offset bytes)) @ fromCharCode (drop (offset + chunkSize) bytes)
        = fromCharCode (drop offset bytes)"
      unfolding fromCharCode_def by (metis map_append)
    with True "1.IH" show ?thesis
      by (subst arrayBufferToBase64_loop.simps) (simp add: subarray_chunk)
  next
    case False
    then show ?thesis
      by (subst arrayBufferToBase64_loop.simps) (simp add: fromCharCode_def)
  qed
qed

lemma charCode_fromCharCode:
  "map (\<lambda>c. word_of_nat (of_char c)) (fromCharCode bytes) = bytes"
proof -
  have "word_of_nat (of_char (char_of (unat b))) = b" for b :: byte
  proof -
    have "unat b < 256" using unsigned_less[of b] by simp
    then show ?thesis by simp
  qed
  then show ?thesis by (simp add: fromCharCode_def comp_def)
qed

text \<open>
  Claim C10. Encoding a byte buffer with \<open>arrayBufferToBase64\<close> and decoding the text with
  \<open>base64ToArrayBuffer\<close> never throws and gives back the buffer, for buffers of every length
  (shorter or longer than the chunk size of the encoding loop).
\<close>

theorem base64_roundtrip: "base64ToArrayBuffer (arrayBufferToBase64 b) = Inr b"
proof -
  have "arrayBufferToBase64 b = btoa (fromCharCode b)"
    by (simp add: arrayBufferToBase64_def arrayBufferToBase64_loop_eq)
  then show ?thesis
    by (simp add: base64ToArrayBuffer_def atob_btoa charCode_fromCharCode)
qed

subsection \<open>Link extractor and resolvers\<close>

lemma set_arrayFromSet: "set (arrayFromSet xs) = set xs"
  by (induction xs rule: arrayFromSet.induct) auto

lemma distinct_arrayFromSet: "distinct (arrayFromSet xs)"
  by (induction xs rule: arrayFromSet.induct) (auto simp: set_arrayFromSet)

text \<open>
  Claim C4. On the body \<^verbatim>\<open>see http://a.com/x and http://a.com/x.\<close> the pattern matches twice,
  the second match carrying the final period; stripping the trailing punctuation makes both
  matches equal, and the extraction returns the one link \<^verbatim>\<open>http://a.com/x\<close>.
\<close>

theorem getLinksFromBody_example:
  "match_urls ''see http://a.com/x and http://a.com/x.'' = [''http://a.com/x'', ''http://a.com/x.'']
   \<and> map strip_trailing_punctuation [''http://a.com/x'', ''http://a.com/x.''] = [''http://a.com/x'', ''http://a.com/x'']
   \<and> getLinksFromBody (Inr ''see http://a.com/x and http://a.com/x.'') = Inr [''http://a.com/x'']"
  by code_simp

text \<open>
  Claim C5. With the single option \<^verbatim>\<open>{id: "rec1", name: "Jane Doe", email: "jane@x.com"}\<close> the
  tokens \<^verbatim>\<open>"Jane Doe"\<close>, \<^verbatim>\<open>"rec1"\<close>, \<^verbatim>\<open>"nomatch"\<close> resolve to the one ID \<^verbatim>\<open>rec1\<close>; and for every
  option set and every token list the result has no duplicates and each element begins
  with \<^verbatim>\<open>rec\<close>.
\<close>

theorem resolveExternalAssignees_ids:
  "resolveExternalAssignees
     [\<lparr>opt_id = ''rec1'', opt_name = ''Jane Doe'', opt_email = Some ''jane@x.com''\<rparr>]
     [''Jane Doe'', ''rec1'', ''nomatch''] = [''rec1'']
   \<and> distinct (resolveExternalAssignees externalOptions rawEntries)
   \<and> (\<forall>x \<in> set (resolveExternalAssignees externalOptions rawEntries). startsWith x ''rec'')"
proof (intro conjI)
  show "resolveExternalAssignees
     [\<lparr>opt_id = ''rec1'', opt_name = ''Jane Doe'', opt_email = Some ''jane@x.com''\<rparr>]
     [''Jane Doe'', ''rec1'', ''nomatch''] = [''rec1'']"
    by code_simp
  show "distinct (resolveExternalAssignees externalOptions rawEntries)"
    by (simp add: resolveExternalAssignees_def Let_def distinct_arrayFromSet)
  show "\<forall>x \<in> set (resolveExternalAssignees externalOptions rawEntries). startsWith x ''rec''"
    by (simp add: resolveExternalAssignees_def Let_def)
qed

theorem resolveExternalAssignees_ids_witness:
  "resolveExternalAssignees
     [\<lparr>opt_id = ''rec1'', opt_name = ''Jane Doe'', opt_email = Some ''jane@x.com''\<rparr>,
      \<lparr>opt_id = ''rec2'', opt_name = ''Max'', opt_email = None\<rparr>]
     [''MAX'', ''jane@X.com'', ''rec2'', ''usr9'', ''rec7''] = [''rec2'', ''rec1'', ''rec7'']
   \<and> distinct [''rec2'', ''rec1'', ''rec7'']
   \<and> list_all (\<lambda>x. startsWith x ''rec'') [''rec2'', ''rec1'', ''rec7'']"
proof -
  have e: "resolveExternalAssignees
     [\<lparr>opt_id = ''rec1'', opt_name = ''Jane Doe'', opt_email = Some ''jane@x.com''\<rparr>,
      \<lparr>opt_id = ''rec2'', opt_name = ''Max'', opt_email = None\<rparr>]
     [''MAX'', ''jane@X.com'', ''rec2'', ''usr9'', ''rec7''] = [''rec2'', ''rec1'', ''rec7'']"
    by code_simp
  show ?thesis
    using resolveExternalAssignees_ids
      [of "[\<lparr>opt_id = ''rec1'', opt_name = ''Jane Doe'', opt_email = Some ''jane@x.com''\<rparr>,
            \<lparr>opt_id = ''rec2'', opt_name = ''Max'', opt_email = None\<rparr>]"
          "[''MAX'', ''jane@X.com'', ''rec2'', ''usr9'', ''rec7'']"]
    unfolding e by (simp add: list_all_iff)
qed

text \<open>
  Claim C7, as stated, fails: \<open>filterLink\<close> searches the whole lower-cased URL, not its path.
  The image link \<^verbatim>\<open>https://logo.example.com/a.png\<close> has the path \<^verbatim>\<open>/a.png\<close>, which contains
  neither word, and is dropped all the same.
\<close>

theorem filterLink_path_counterexample:
  "parseHttpUrl ''https://logo.example.com/a.png''
     = Some \<lparr>hostname = ''logo.example.com'', pathname = ''/a.png''\<rparr>
   \<and> endsWith ''https://logo.example.com/a.png'' ''.png''
   \<and> \<not> str_includes ''/a.png'' ''signature''
   \<and> \<not> str_includes ''/a.png'' ''logo''
   \<and> filterLink ''https://logo.example.com/a.png'' 1 = False"
  by code_simp

text \<open>
  Claim C7, amended. For a URL that ends, in any letter case, in \<^verbatim>\<open>.png\<close>, \<^verbatim>\<open>.jpg\<close>, \<^verbatim>\<open>.jpeg\<close> or
  \<^verbatim>\<open>.gif\<close> and that no other exclusion rule applies to (it contains neither the safe-links
  domain nor \<^verbatim>\<open>cid:\<close>, and is not a repeated link on a social-media domain), \<open>filterLink\<close>
  drops it exactly when the lower-cased URL contains \<^verbatim>\<open>signature\<close> or \<^verbatim>\<open>logo\<close> anywhere, the
  host name included.
\<close>

theorem filterLink_image:
  assumes "image_suffix (toLowerCase link)"
    and "\<not> str_includes (toLowerCase link) ''safelinks.protection.outlook.com''"
    and "\<not> str_includes (toLowerCase link) ''cid:''"
    and "\<not> (count > 1 \<and> list_ex (\<lambda>d. str_includes (toLowerCase link) d) sigDomains)"
  shows "filterLink link count = False
     \<longleftrightarrow> str_includes (toLowerCase link) ''signature'' \<or> str_includes (toLowerCase link) ''logo''"
  using assms by (auto simp: filterLink_def Let_def)

theorem filterLink_image_witness:
  "image_suffix (toLowerCase ''https://a.com/img/Logo.PNG'')
   \<and> \<not> str_includes (toLowerCase ''https://a.com/img/Logo.PNG'') ''safelinks.protection.outlook.com''
   \<and> \<not> str_includes (toLowerCase ''https://a.com/img/Logo.PNG'') ''cid:''
   \<and> \<not> ((2::nat) > 1 \<and> list_ex (\<lambda>d. str_includes (toLowerCase ''https://a.com/img/Logo.PNG'') d) sigDomains)
   \<and> str_includes (toLowerCase ''https://a.com/img/Logo.PNG'') ''logo''
   \<and> filterLink ''https://a.com/img/Logo.PNG'' 2 = False"
proof -
  have h1: "image_suffix (toLowerCase ''https://a.com/img/Logo.PNG'')" by code_simp
  have h2: "\<not> str_includes (toLowerCase ''https://a.com/img/Logo.PNG'') ''safelinks.protection.outlook.com''"
    by code_simp
  have h3: "\<not> str_includes (toLowerCase ''https://a.com/img/Logo.PNG'') ''cid:''" by code_simp
  have h4: "\<not> ((2::nat) > 1 \<and> list_ex (\<lambda>d. str_includes (toLowerCase ''https://a.com/img/Logo.PNG'') d) sigDomains)"
    by code_simp
  have h5: "str_includes (toLowerCase ''https://a.com/img/Logo.PNG'') ''logo''" by code_simp
  from filterLink_image [OF h1 h2 h3 h4] h5
  have "filterLink ''https://a.com/img/Logo.PNG'' 2 = False" by simp
  with h1 h2 h3 h4 h5 show ?thesis by blast
qed

text \<open>
  Claim C8. For a link with no title in the cache, \<open>getLinkTitle\<close> returns the link itself
  when the \<^verbatim>\<open>URL\<close> constructor throws, and otherwise the host name followed by the path,
  the path left out when it is \<^verbatim>\<open>/\<close>. For \<^verbatim>\<open>https://example.com/a/b\<close>, which parses to the
  host \<^verbatim>\<open>example.com\<close> and the path \<^verbatim>\<open>/a/b\<close>, and the empty cache, the title is
  \<^verbatim>\<open>example.com/a/b\<close>.
\<close>

theorem getLinkTitle_fallback:
  "(linkTitleCache link = None \<longrightarrow>
      getLinkTitle newURL linkTitleCache link =
        (case newURL link of
           None \<Rightarrow> link
         | Some u \<Rightarrow> if pathname u = ''/'' then hostname u else hostname u @ pathname u))
   \<and> (newURL ''https://example.com/a/b'' = Some \<lparr>hostname = ''example.com'', pathname = ''/a/b''\<rparr> \<longrightarrow>
      getLinkTitle newURL Map.empty ''https://example.com/a/b'' = ''example.com/a/b'')"
  by (auto simp: getLinkTitle_def Let_def split: option.splits)

theorem getLinkTitle_fallback_witness:
  "parseHttpUrl ''https://example.com/a/b'' = Some \<lparr>hostname = ''example.com'', pathname = ''/a/b''\<rparr>
   \<and> getLinkTitle parseHttpUrl Map.empty ''https://example.com/a/b'' = ''example.com/a/b''
   \<and> getLinkTitle parseHttpUrl Map.empty ''https://example.com/'' = ''example.com''
   \<and> getLinkTitle parseHttpUrl Map.empty ''not a url'' = ''not a url''"
proof -
  have p1: "parseHttpUrl ''https://example.com/a/b'' = Some \<lparr>hostname = ''example.com'', pathname = ''/a/b''\<rparr>"
    by code_simp
  have p2: "parseHttpUrl ''https://example.com/'' = Some \<lparr>hostname = ''example.com'', pathname = ''/''\<rparr>"
    by code_simp
  have p3: "parseHttpUrl ''not a url'' = None" by code_simp
  show ?thesis
    using getLinkTitle_fallback [of Map.empty "''https://example.com/a/b''" parseHttpUrl]
      getLinkTitle_fallback [of Map.empty "''https://example.com/''" parseHttpUrl]
      getLinkTitle_fallback [of Map.empty "''not a url''" parseHttpUrl]
    by (simp add: p1 p2 p3)
qed

subsection \<open>Attachment delivery\<close>

lemma getGraphToken_nonempty: "fst (getGraphToken env st) = Some t \<Longrightarrow> t \<noteq> []"
  by (auto simp: getGraphToken_def acquire_popup_def truthy_def Let_def
           split: if_splits option.splits sum.splits)

lemma append_batches_Inr [simp]:
  "append_batches (Inr xs, p) (Inr ys, q) = (Inr (xs @ ys), p @ q)"
  by (simp add: append_batches_def)

lemma append_batches_Inl [simp]: "append_batches (Inl e, p) q = (Inl e, p)"
  by (simp add: append_batches_def)

lemma append_batches_Inr_Inl [simp]:
  "append_batches (Inr xs, p) (Inl e, q) = (Inl e, p @ q)"
  by (simp add: append_batches_def)

lemma append_batches_empty [simp]: "append_batches (Inr [], []) q = q"
  by (cases q) (simp add: append_batches_def split: sum.splits)

lemma append_batches_assoc:
  "append_batches (append_batches p q) r = append_batches p (append_batches q r)"
  by (cases p, cases q, cases r) (simp add: append_batches_def split: sum.splits)

lemma append_batches_step:
  "append_batches (Inr xs, g # p) q = (fst (append_batches (Inr xs, p) q), g # snd (append_batches (Inr xs, p) q))"
  by (cases q) (simp add: append_batches_def split: sum.splits)

lemma attachments_loop_acc:
  "attachments_loop mailbox graph t xs acc =
     append_batches (Inr acc, []) (attachments_loop mailbox graph t xs [])"
proof (induction xs arbitrary: acc)
  case Nil
  show ?case by simp
next
  case (Cons a xs)
  note IH = Cons.IH
  show ?case
  proof (cases "getAttachmentContent mailbox (att_id a)")
    case (Inl e)
    then show ?thesis by simp
  next
    case (Inr c)
    show ?thesis
    proof (cases c)
      case (ContentUrl v)
      obtain r q where l: "attachments_loop mailbox graph t xs [] = (r, q)"
        by (cases "attachments_loop mailbox graph t xs []")
      show ?thesis
        using Inr ContentUrl l
          IH[of "acc @ [\<lparr>filename = att_name a, url = v\<rparr>]"]
          IH[of "[\<lparr>filename = att_name a, url = v\<rparr>]"]
        by (cases r) simp_all
    next
      case (ContentBase64 v)
      obtain up sent where u: "uploadToOneDriveAndShare graph (att_name a) v t = (up, sent)"
        by (cases "uploadToOneDriveAndShare graph (att_name a) v t")
      obtain r q where l: "attachments_loop mailbox graph t xs [] = (r, q)"
        by (cases "attachments_loop mailbox graph t xs []")
      show ?thesis
      proof (cases up)
        case (Inl e)
        with Inr ContentBase64 u l IH[of acc] show ?thesis by (cases r) simp_all
      next
        case up_ok: (Inr res)
        show ?thesis
        proof (cases res)
          case None
          with up_ok Inr ContentBase64 u l IH[of acc] show ?thesis by (cases r) simp_all
        next
          case (Some d)
          with up_ok Inr ContentBase64 u l IH[of "acc @ [d]"] IH[of "[d]"]
          show ?thesis by (cases r) simp_all
        qed
      qed
    next
      case Unsupported
      obtain r q where l: "attachments_loop mailbox graph t xs [] = (r, q)"
        by (cases "attachments_loop mailbox graph t xs []")
      with Inr Unsupported IH[of acc] show ?thesis by (cases r) simp_all
    qed
  qed
qed

lemma attachments_loop_Cons:
  "attachments_loop mailbox graph t (a # xs) [] =
     append_batches (attachments_loop mailbox graph t [a] []) (attachments_loop mailbox graph t xs [])"
proof (cases "getAttachmentContent mailbox (att_id a)")
  case (Inl e)
  then show ?thesis by simp
next
  case (Inr c)
  obtain r q where l: "attachments_loop mailbox graph t xs [] = (r, q)"
    by (cases "attachments_loop mailbox graph t xs []")
  show ?thesis
  proof (cases c)
    case (ContentUrl v)
    with Inr l attachments_loop_acc[of mailbox graph t xs "[\<lparr>filename = att_name a, url = v\<rparr>]"]
    show ?thesis by (cases r) simp_all
  next
    case (ContentBase64 v)
    obtain up sent where u: "uploadToOneDriveAndShare graph (att_name a) v t = (up, sent)"
      by (cases "uploadToOneDriveAndShare graph (att_name a) v t")
    show ?thesis
    proof (cases up)
      case (Inl e)
      with Inr ContentBase64 u l show ?thesis by (cases r) simp_all
    next
      case up_ok: (Inr res)
      show ?thesis
      proof (cases res)
        case None
        with up_ok Inr ContentBase64 u l show ?thesis by (cases r) simp_all
      next
        case (Some d)
        with up_ok Inr ContentBase64 u l attachments_loop_acc[of mailbox graph t xs "[d]"]
        show ?thesis by (cases r) simp_all
      qed
    qed
  next
    case Unsupported
    with Inr l show ?thesis by (cases r) simp_all
  qed
qed

lemma attachments_loop_append:
  "attachments_loop mailbox graph t (xs @ ys) [] =
     append_batches (attachments_loop mailbox graph t xs []) (attachments_loop mailbox graph t ys [])"
proof (induction xs)
  case Nil
  show ?case by simp
next
  case (Cons a xs)
  show ?case
    unfolding append_Cons attachments_loop_Cons[of mailbox graph t a "xs @ ys"]
      attachments_loop_Cons[of mailbox graph t a xs] Cons.IH append_batches_assoc
    by (rule refl)
qed




lemma prepare_with_token:
  assumes "fst (getGraphToken msal st) = Some t"
  shows "fst (prepareAirtableAttachments msal mailbox graph st xs) = attachments_loop mailbox graph t xs []"
proof -
  from assms have "t \<noteq> []" by (rule getGraphToken_nonempty)
  with assms show ?thesis
    by (cases "getGraphToken msal st") (simp add: prepareAirtableAttachments_def)
qed

lemma prepare_without_token:
  assumes "fst (getGraphToken msal st) = None"
  shows "fst (prepareAirtableAttachments msal mailbox graph st xs) = (Inr [], [])"
  using assms by (cases "getGraphToken msal st") (simp add: prepareAirtableAttachments_def)

lemma directDownloadUrl_None:
  assumes "\<not> (\<exists>d. getItem env itemId tok = Response True (Json (Some d)) \<and> d \<noteq> [])"
  shows "directDownloadUrl env itemId tok = None"
proof (cases "getItem env itemId tok")
  case Rejected
  then show ?thesis by (simp add: directDownloadUrl_def)
next
  case (Response ok b)
  with assms show ?thesis
    by (cases b) (auto simp: directDownloadUrl_def read_json_def truthy_def split: option.splits)
qed

lemma directDownloadUrl_Some:
  assumes "getItem env itemId tok = Response True (Json (Some d))" "d \<noteq> []"
  shows "directDownloadUrl env itemId tok = Some d"
  using assms by (simp add: directDownloadUrl_def read_json_def truthy_def)

lemma upload_until_item:
  assumes "createUploadSession env (safeName env fname) tok = Response True (Json uploadUrl)"
    and "base64ToArrayBuffer base64 = Inr buffer"
    and "putContent env uploadUrl buffer = Response True (Json item)"
    and "item_id item = Some itemId" and "itemId \<noteq> []"
  shows "uploadToOneDriveAndShare env fname base64 tok =
     (case directDownloadUrl env itemId tok of
        Some dlUrl \<Rightarrow>
          (Inr (Some \<lparr>filename = fname, url = dlUrl\<rparr>),
           [CreateUploadSession (safeName env fname), PutContent uploadUrl buffer, GetItem itemId])
      | None \<Rightarrow>
          (fst (shareLink_loop env fname itemId tok (item_webUrl item) shareScopes),
           [CreateUploadSession (safeName env fname), PutContent uploadUrl buffer, GetItem itemId]
             @ snd (shareLink_loop env fname itemId tok (item_webUrl item) shareScopes)))"
  using assms
  by (simp add: uploadToOneDriveAndShare_def read_json_def Let_def split_beta split: option.splits)

lemma shareLink_anonymous_link:
  assumes "createLink env itemId ''anonymous'' tok = Response True (Json (Some l))" "l \<noteq> []"
  shows "shareLink_loop env fname itemId tok web shareScopes =
     (Inr (Some \<lparr>filename = fname, url = l\<rparr>), [CreateLink itemId ''anonymous''])"
  using assms by (simp add: shareScopes_def read_json_def truthy_def)

lemma shareLink_anonymous_bare:
  assumes "no_link (createLink env itemId ''anonymous'' tok)" "web = Some w" "w \<noteq> []"
  shows "shareLink_loop env fname itemId tok web shareScopes =
     (Inr (Some \<lparr>filename = fname, url = w\<rparr>), [CreateLink itemId ''anonymous''])"
  using assms by (auto simp: no_link_def shareScopes_def read_json_def truthy_def)

lemma shareLink_skip:
  assumes "refused (createLink env itemId scope tok) \<or> (no_link (createLink env itemId scope tok) \<and> \<not> truthy web)"
  shows "shareLink_loop env fname itemId tok web (scope # scopes) =
     (fst (shareLink_loop env fname itemId tok web scopes),
      CreateLink itemId scope # snd (shareLink_loop env fname itemId tok web scopes))"
proof (cases "createLink env itemId scope tok")
  case Rejected
  with assms show ?thesis by (simp add: refused_def no_link_def)
next
  case (Response ok b)
  with assms show ?thesis
    by (cases b)
       (auto simp: refused_def no_link_def read_json_def read_text_def truthy_def split_beta
             split: option.splits if_splits)
qed

lemma shareLink_organization_link:
  assumes "refused (createLink env itemId ''anonymous'' tok)
           \<or> (no_link (createLink env itemId ''anonymous'' tok) \<and> \<not> truthy web)"
    and "createLink env itemId ''organization'' tok = Response True (Json (Some l))" "l \<noteq> []"
  shows "shareLink_loop env fname itemId tok web shareScopes =
     (Inr (Some \<lparr>filename = fname, url = l\<rparr>),
      [CreateLink itemId ''anonymous'', CreateLink itemId ''organization''])"
  unfolding shareScopes_def shareLink_skip[OF assms(1)]
  using assms(2,3) by (simp add: read_json_def truthy_def)

lemma shareLink_webUrl:
  assumes "refused (createLink env itemId ''anonymous'' tok)"
    and "refused (createLink env itemId ''organization'' tok) \<or> no_link (createLink env itemId ''organization'' tok)"
    and "web = Some w" "w \<noteq> []"
  shows "shareLink_loop env fname itemId tok web shareScopes =
     (Inr (Some \<lparr>filename = fname, url = w\<rparr>),
      [CreateLink itemId ''anonymous'', CreateLink itemId ''organization''])"
proof -
  have a: "refused (createLink env itemId ''anonymous'' tok)
           \<or> (no_link (createLink env itemId ''anonymous'' tok) \<and> \<not> truthy web)"
    using assms(1) by simp
  show ?thesis
  proof (cases "refused (createLink env itemId ''organization'' tok)")
    case True
    then have o: "refused (createLink env itemId ''organization'' tok)
           \<or> (no_link (createLink env itemId ''organization'' tok) \<and> \<not> truthy web)" by simp
    show ?thesis
      unfolding shareScopes_def shareLink_skip[OF a] shareLink_skip[OF o]
      using assms(3,4) by simp
  next
    case False
    with assms(2) have "no_link (createLink env itemId ''organization'' tok)" by simp
    then show ?thesis
      unfolding shareScopes_def shareLink_skip[OF a]
      using assms(3,4) by (auto simp: no_link_def read_json_def truthy_def)
  qed
qed

lemma shareLink_nothing:
  assumes "refused (createLink env itemId ''anonymous'' tok) \<or> no_link (createLink env itemId ''anonymous'' tok)"
    and "refused (createLink env itemId ''organization'' tok) \<or> no_link (createLink env itemId ''organization'' tok)"
    and "\<not> truthy web"
  shows "shareLink_loop env fname itemId tok web shareScopes =
     (Inr None, [CreateLink itemId ''anonymous'', CreateLink itemId ''organization''])"
proof -
  have a: "refused (createLink env itemId ''anonymous'' tok)
           \<or> (no_link (createLink env itemId ''anonymous'' tok) \<and> \<not> truthy web)"
    using assms(1,3) by blast
  have o: "refused (createLink env itemId ''organization'' tok)
           \<or> (no_link (createLink env itemId ''organization'' tok) \<and> \<not> truthy web)"
    using assms(2,3) by blast
  show ?thesis
    unfolding shareScopes_def shareLink_skip[OF a] shareLink_skip[OF o]
    using assms(3) by (simp add: truthy_def split: option.splits)
qed

text \<open>
  Claim C3, as stated, fails: an \<^verbatim>\<open>ok\<close> answer to the \<^verbatim>\<open>anonymous\<close> request that carries no
  \<^verbatim>\<open>link.webUrl\<close> makes the loop return the item's plain \<^verbatim>\<open>webUrl\<close> at once. Here the
  metadata request is rejected, the \<^verbatim>\<open>organization\<close> scope would yield a sharing link, and the
  result is the plain web URL; the \<^verbatim>\<open>organization\<close> request is never sent.
\<close>

theorem upload_url_order_counterexample:
  "getItem bare_link_graph ''item1'' ''tok'' = Rejected
   \<and> createLink bare_link_graph ''item1'' ''anonymous'' ''tok'' = Response True (Json None)
   \<and> createLink bare_link_graph ''item1'' ''organization'' ''tok''
        = Response True (Json (Some ''https://share/org''))
   \<and> uploadToOneDriveAndShare bare_link_graph ''a.txt'' ''TWFu'' ''tok''
        = (Inr (Some \<lparr>filename = ''a.txt'', url = ''https://drive/web''\<rparr>),
           [CreateUploadSession ''a.txt'', PutContent (Some ''https://up/1'') [77, 97, 110],
            GetItem ''item1'', CreateLink ''item1'' ''anonymous''])"
  by code_simp

text \<open>
  Claim C3, amended. After a successful upload (the session and the upload answered \<^verbatim>\<open>ok\<close>
  with JSON bodies, the payload decoded, the item has an ID):
  the direct download URL is the result when the metadata request yields one, and no
  sharing link is requested. Otherwise, whatever made the metadata request fail, the scopes
  are tried in the order \<^verbatim>\<open>anonymous\<close>, \<^verbatim>\<open>organization\<close>: an \<^verbatim>\<open>ok\<close> answer with a link is
  the result and ends the loop; an \<^verbatim>\<open>ok\<close> answer without a link gives the item's plain
  \<^verbatim>\<open>webUrl\<close> at once when there is one; a refused request moves on to the next scope. After
  both scopes the plain \<^verbatim>\<open>webUrl\<close> is the result if present, else \<^verbatim>\<open>null\<close>. Each conjunct
  gives the result together with the requests sent, in order.
\<close>

theorem upload_url_order:
  assumes "createUploadSession env (safeName env fname) tok = Response True (Json uploadUrl)"
    and "base64ToArrayBuffer base64 = Inr buffer"
    and "putContent env uploadUrl buffer = Response True (Json item)"
    and "item_id item = Some itemId" and "itemId \<noteq> []"
  shows
    "(\<forall>d. getItem env itemId tok = Response True (Json (Some d)) \<and> d \<noteq> [] \<longrightarrow>
         uploadToOneDriveAndShare env fname base64 tok =
           (Inr (Some \<lparr>filename = fname, url = d\<rparr>),
            [CreateUploadSession (safeName env fname), PutContent uploadUrl buffer, GetItem itemId]))
     \<and> (\<not> (\<exists>d. getItem env itemId tok = Response True (Json (Some d)) \<and> d \<noteq> []) \<longrightarrow>
         (\<forall>l. createLink env itemId ''anonymous'' tok = Response True (Json (Some l)) \<and> l \<noteq> [] \<longrightarrow>
              uploadToOneDriveAndShare env fname base64 tok =
                (Inr (Some \<lparr>filename = fname, url = l\<rparr>),
                 [CreateUploadSession (safeName env fname), PutContent uploadUrl buffer, GetItem itemId,
                  CreateLink itemId ''anonymous'']))
       \<and> (\<forall>w. no_link (createLink env itemId ''anonymous'' tok) \<and> item_webUrl item = Some w \<and> w \<noteq> [] \<longrightarrow>
              uploadToOneDriveAndShare env fname base64 tok =
                (Inr (Some \<lparr>filename = fname, url = w\<rparr>),
                 [CreateUploadSession (safeName env fname), PutContent uploadUrl buffer, GetItem itemId,
                  CreateLink itemId ''anonymous'']))
       \<and> (\<forall>l. (refused (createLink env itemId ''anonymous'' tok)
                  \<or> (no_link (createLink env itemId ''anonymous'' tok) \<and> \<not> truthy (item_webUrl item)))
                \<and> createLink env itemId ''organization'' tok = Response True (Json (Some l)) \<and> l \<noteq> [] \<longrightarrow>
              uploadToOneDriveAndShare env fname base64 tok =
                (Inr (Some \<lparr>filename = fname, url = l\<rparr>),
                 [CreateUploadSession (safeName env fname), PutContent uploadUrl buffer, GetItem itemId,
                  CreateLink itemId ''anonymous'', CreateLink itemId ''organization'']))
       \<and> (\<forall>w. refused (createLink env itemId ''anonymous'' tok)
                \<and> (refused (createLink env itemId ''organization'' tok)
                     \<or> no_link (createLink env itemId ''organization'' tok))
                \<and> item_webUrl item = Some w \<and> w \<noteq> [] \<longrightarrow>
              uploadToOneDriveAndShare env fname base64 tok =
                (Inr (Some \<lparr>filename = fname, url = w\<rparr>),
                 [CreateUploadSession (safeName env fname), PutContent uploadUrl buffer, GetItem itemId,
                  CreateLink itemId ''anonymous'', CreateLink itemId ''organization'']))
       \<and> ((refused (createLink env itemId ''anonymous'' tok)
              \<or> no_link (createLink env itemId ''anonymous'' tok))
            \<and> (refused (createLink env itemId ''organization'' tok)
                 \<or> no_link (createLink env itemId ''organization'' tok))
            \<and> \<not> truthy (item_webUrl item) \<longrightarrow>
              uploadToOneDriveAndShare env fname base64 tok =
                (Inr None,
                 [CreateUploadSession (safeName env fname), PutContent uploadUrl buffer, GetItem itemId,
                  CreateLink itemId ''anonymous'', CreateLink itemId ''organization''])))"
proof -
  note up = upload_until_item[OF assms]
  have direct: "uploadToOneDriveAndShare env fname base64 tok =
        (Inr (Some \<lparr>filename = fname, url = d\<rparr>),
         [CreateUploadSession (safeName env fname), PutContent uploadUrl buffer, GetItem itemId])"
    if "getItem env itemId tok = Response True (Json (Some d))" "d \<noteq> []" for d
    using up directDownloadUrl_Some[OF that] by simp
  have share: "uploadToOneDriveAndShare env fname base64 tok =
        (fst (shareLink_loop env fname itemId tok (item_webUrl item) shareScopes),
         [CreateUploadSession (safeName env fname), PutContent uploadUrl buffer, GetItem itemId]
           @ snd (shareLink_loop env fname itemId tok (item_webUrl item) shareScopes))"
    if "\<not> (\<exists>d. getItem env itemId tok = Response True (Json (Some d)) \<and> d \<noteq> [])"
    using up directDownloadUrl_None[OF that] by simp
  show ?thesis
  proof (intro conjI allI impI)
    fix d assume "getItem env itemId tok = Response True (Json (Some d)) \<and> d \<noteq> []"
    then show "uploadToOneDriveAndShare env fname base64 tok =
        (Inr (Some \<lparr>filename = fname, url = d\<rparr>),
         [CreateUploadSession (safeName env fname), PutContent uploadUrl buffer, GetItem itemId])"
      using direct by blast
  next
    fix l
    assume n: "\<not> (\<exists>d. getItem env itemId tok = Response True (Json (Some d)) \<and> d \<noteq> [])"
      and "createLink env itemId ''anonymous'' tok = Response True (Json (Some l)) \<and> l \<noteq> []"
    then show "uploadToOneDriveAndShare env fname base64 tok =
        (Inr (Some \<lparr>filename = fname, url = l\<rparr>),
         [CreateUploadSession (safeName env fname), PutContent uploadUrl buffer, GetItem itemId,
          CreateLink itemId ''anonymous''])"
      using share[OF n] shareLink_anonymous_link[of env itemId tok l fname "item_webUrl item"] by simp
  next
    fix w
    assume n: "\<not> (\<exists>d. getItem env itemId tok = Response True (Json (Some d)) \<and> d \<noteq> [])"
      and "no_link (createLink env itemId ''anonymous'' tok) \<and> item_webUrl item = Some w \<and> w \<noteq> []"
    then show "uploadToOneDriveAndShare env fname base64 tok =
        (Inr (Some \<lparr>filename = fname, url = w\<rparr>),
         [CreateUploadSession (safeName env fname), PutContent uploadUrl buffer, GetItem itemId,
          CreateLink itemId ''anonymous''])"
      using share[OF n] shareLink_anonymous_bare[of env itemId tok "item_webUrl item" w fname] by simp
  next
    fix l
    assume n: "\<not> (\<exists>d. getItem env itemId tok = Response True (Json (Some d)) \<and> d \<noteq> [])"
      and "(refused (createLink env itemId ''anonymous'' tok)
              \<or> (no_link (createLink env itemId ''anonymous'' tok) \<and> \<not> truthy (item_webUrl item)))
           \<and> createLink env itemId ''organization'' tok = Response True (Json (Some l)) \<and> l \<noteq> []"
    then show "uploadToOneDriveAndShare env fname base64 tok =
        (Inr (Some \<lparr>filename = fname, url = l\<rparr>),
         [CreateUploadSession (safeName env fname), PutContent uploadUrl buffer, GetItem itemId,
          CreateLink itemId ''anonymous'', CreateLink itemId ''organization''])"
      using share[OF n] shareLink_organization_link[of env itemId tok "item_webUrl item" l fname] by simp
  next
    fix w
    assume n: "\<not> (\<exists>d. getItem env itemId tok = Response True (Json (Some d)) \<and> d \<noteq> [])"
      and "refused (createLink env itemId ''anonymous'' tok)
           \<and> (refused (createLink env itemId ''organization'' tok)
                \<or> no_link (createLink env itemId ''organization'' tok))
           \<and> item_webUrl item = Some w \<and> w \<noteq> []"
    then show "uploadToOneDriveAndShare env fname base64 tok =
        (Inr (Some \<lparr>filename = fname, url = w\<rparr>),
         [CreateUploadSession (safeName env fname), PutContent uploadUrl buffer, GetItem itemId,
          CreateLink itemId ''anonymous'', CreateLink itemId ''organization''])"
      using share[OF n] shareLink_webUrl[of env itemId tok "item_webUrl item" w fname] by simp
  next
    assume n: "\<not> (\<exists>d. getItem env itemId tok = Response True (Json (Some d)) \<and> d \<noteq> [])"
      and "(refused (createLink env itemId ''anonymous'' tok)
              \<or> no_link (createLink env itemId ''anonymous'' tok))
           \<and> (refused (createLink env itemId ''organization'' tok)
                \<or> no_link (createLink env itemId ''organization'' tok))
           \<and> \<not> truthy (item_webUrl item)"
    then show "uploadToOneDriveAndShare env fname base64 tok =
        (Inr None,
         [CreateUploadSession (safeName env fname), PutContent uploadUrl buffer, GetItem itemId,
          CreateLink itemId ''anonymous'', CreateLink itemId ''organization''])"
      using share[OF n] shareLink_nothing[of env itemId tok "item_webUrl item" fname] by simp
  qed
qed

theorem upload_url_order_witness:
  "createUploadSession example_graph (safeName example_graph ''b'') ''tok''
     = Response True (Json (Some ''https://up/1''))
   \<and> base64ToArrayBuffer ''TWFu'' = Inr [77, 97, 110]
   \<and> putContent example_graph (Some ''https://up/1'') [77, 97, 110]
       = Response True (Json \<lparr>item_id = Some ''item1'', item_webUrl = Some ''https://drive/web''\<rparr>)
   \<and> getItem example_graph ''item1'' ''tok'' = Rejected
   \<and> createLink example_graph ''item1'' ''anonymous'' ''tok''
       = Response True (Json (Some ''https://share/anon''))
   \<and> uploadToOneDriveAndShare example_graph ''b'' ''TWFu'' ''tok''
       = (Inr (Some \<lparr>filename = ''b'', url = ''https://share/anon''\<rparr>),
          [CreateUploadSession ''b'', PutContent (Some ''https://up/1'') [77, 97, 110],
           GetItem ''item1'', CreateLink ''item1'' ''anonymous''])"
proof -
  have h1: "createUploadSession example_graph (safeName example_graph ''b'') ''tok''
     = Response True (Json (Some ''https://up/1''))"
    by (simp add: example_graph_def)
  have h2: "base64ToArrayBuffer ''TWFu'' = Inr [77, 97, 110]" by code_simp
  have h3: "putContent example_graph (Some ''https://up/1'') [77, 97, 110]
       = Response True (Json \<lparr>item_id = Some ''item1'', item_webUrl = Some ''https://drive/web''\<rparr>)"
    by (simp add: example_graph_def)
  have h4: "item_id \<lparr>item_id = Some ''item1'', item_webUrl = Some ''https://drive/web''\<rparr> = Some ''item1''"
    by simp
  have h5: "''item1'' \<noteq> []" by simp
  have g: "getItem example_graph ''item1'' ''tok'' = Rejected" by (simp add: example_graph_def)
  have a: "createLink example_graph ''item1'' ''anonymous'' ''tok''
       = Response True (Json (Some ''https://share/anon''))"
    by (simp add: example_graph_def)
  have s: "safeName example_graph ''b'' = ''b''" by (simp add: safeName_def)
  from upload_url_order[OF h1 h2 h3 h4 h5] g a
  have "uploadToOneDriveAndShare example_graph ''b'' ''TWFu'' ''tok''
       = (Inr (Some \<lparr>filename = ''b'', url = ''https://share/anon''\<rparr>),
          [CreateUploadSession ''b'', PutContent (Some ''https://up/1'') [77, 97, 110],
           GetItem ''item1'', CreateLink ''item1'' ''anonymous''])"
    by (simp add: s)
  with h1 h2 h3 g a show ?thesis by blast
qed


text \<open>
  Claim C1. For a non-empty selection, when \<open>getGraphToken\<close> returns no token and at least
  one selected attachment has embedded-payload content, \<open>prepareAirtableAttachments\<close>
  returns the empty list.
\<close>

theorem no_token_payload_batch_empty:
  assumes "selected \<noteq> []"
    and "fst (getGraphToken msal st) = None"
    and "\<exists>a \<in> set selected. \<exists>v. getAttachmentContent mailbox (att_id a) = Inr (ContentBase64 v)"
  shows "fst (fst (prepareAirtableAttachments msal mailbox graph st selected)) = Inr []"
  using prepare_without_token[OF assms(2), of mailbox graph selected] by simp

theorem no_token_payload_batch_empty_witness:
  "[att ''1'' ''a'', att ''2'' ''b''] \<noteq> []
   \<and> fst (getGraphToken no_config fresh) = None
   \<and> getAttachmentContent example_mailbox (att_id (att ''2'' ''b'')) = Inr (ContentBase64 ''TWFu'')
   \<and> fst (fst (prepareAirtableAttachments no_config example_mailbox example_graph fresh
                 [att ''1'' ''a'', att ''2'' ''b''])) = Inr []"
proof -
  have h1: "[att ''1'' ''a'', att ''2'' ''b''] \<noteq> []" by simp
  have h2: "fst (getGraphToken no_config fresh) = None"
    by (simp add: getGraphToken_def no_config_def fresh_def truthy_def)
  have c: "getAttachmentContent example_mailbox (att_id (att ''2'' ''b'')) = Inr (ContentBase64 ''TWFu'')"
    by (simp add: getAttachmentContent_def resolve_content_def example_mailbox_def att_def)
  then have h3: "\<exists>a \<in> set [att ''1'' ''a'', att ''2'' ''b''].
      \<exists>v. getAttachmentContent example_mailbox (att_id a) = Inr (ContentBase64 v)"
    by simp
  from no_token_payload_batch_empty[OF h1 h2 h3] h1 h2 c show ?thesis by blast
qed

text \<open>
  Claim C9. For a non-empty selection, when \<open>getGraphToken\<close> returns no token the result is
  empty and no request at all has been made: no attachment content is acquired, so
  attachments whose content would be an opaque reference are dropped too.
\<close>

theorem no_token_checked_first:
  assumes "selected \<noteq> []"
    and "fst (getGraphToken msal st) = None"
  shows "fst (prepareAirtableAttachments msal mailbox graph st selected) = (Inr [], [])"
  using assms(2) by (rule prepare_without_token)

theorem no_token_checked_first_witness:
  "[att ''1'' ''a'', att ''4'' ''d''] \<noteq> []
   \<and> fst (getGraphToken no_config fresh) = None
   \<and> getAttachmentContent example_mailbox (att_id (att ''1'' ''a'')) = Inr (ContentUrl ''https://host/file'')
   \<and> getAttachmentContent example_mailbox (att_id (att ''4'' ''d'')) = Inr (ContentUrl ''https://host/other'')
   \<and> fst (prepareAirtableAttachments no_config example_mailbox example_graph fresh
            [att ''1'' ''a'', att ''4'' ''d'']) = (Inr [], [])"
proof -
  have h1: "[att ''1'' ''a'', att ''4'' ''d''] \<noteq> []" by simp
  have h2: "fst (getGraphToken no_config fresh) = None"
    by (simp add: getGraphToken_def no_config_def fresh_def truthy_def)
  have c1: "getAttachmentContent example_mailbox (att_id (att ''1'' ''a'')) = Inr (ContentUrl ''https://host/file'')"
    by (simp add: getAttachmentContent_def resolve_content_def example_mailbox_def att_def)
  have c4: "getAttachmentContent example_mailbox (att_id (att ''4'' ''d'')) = Inr (ContentUrl ''https://host/other'')"
    by (simp add: getAttachmentContent_def resolve_content_def example_mailbox_def att_def)
  from no_token_checked_first[OF h1 h2] h1 h2 c1 c4 show ?thesis by blast
qed

text \<open>
  Claim C2. Content is acquired once a token has been obtained. An attachment whose
  acquired content is the opaque reference \<open>v\<close> then adds exactly
  \<^verbatim>\<open>{filename: attachment.name, url: v}\<close> to the result, at its place in the selection, and
  exactly one request to the requests made, the content acquisition itself: nothing of the
  upload path. The batch is the run over the attachments before it, this one step, and the
  run over the attachments after it; when neither run is rejected the result is the three
  lists joined. A batch of this one attachment gives the one-element list.
\<close>

theorem reference_passes_through:
  assumes "fst (getGraphToken msal st) = Some t"
    and "getAttachmentContent mailbox (att_id a) = Inr (ContentUrl v)"
  shows "fst (prepareAirtableAttachments msal mailbox graph st (before @ a # after)) =
           append_batches (fst (prepareAirtableAttachments msal mailbox graph st before))
             (append_batches
                (Inr [\<lparr>filename = att_name a, url = v\<rparr>], [GetAttachmentContent (att_id a)])
                (fst (prepareAirtableAttachments msal mailbox graph st after)))
     \<and> (\<forall>rb ra. fst (fst (prepareAirtableAttachments msal mailbox graph st before)) = Inr rb
           \<and> fst (fst (prepareAirtableAttachments msal mailbox graph st after)) = Inr ra \<longrightarrow>
           fst (prepareAirtableAttachments msal mailbox graph st (before @ a # after)) =
             (Inr (rb @ \<lparr>filename = att_name a, url = v\<rparr> # ra),
              snd (fst (prepareAirtableAttachments msal mailbox graph st before))
                @ GetAttachmentContent (att_id a)
                # snd (fst (prepareAirtableAttachments msal mailbox graph st after))))
     \<and> fst (prepareAirtableAttachments msal mailbox graph st [a]) =
           (Inr [\<lparr>filename = att_name a, url = v\<rparr>], [GetAttachmentContent (att_id a)])"
proof -
  have one: "attachments_loop mailbox graph t [a] [] =
      (Inr [\<lparr>filename = att_name a, url = v\<rparr>], [GetAttachmentContent (att_id a)])"
    using assms(2) by simp
  have whole: "attachments_loop mailbox graph t (before @ a # after) [] =
      append_batches (attachments_loop mailbox graph t before [])
        (append_batches
           (Inr [\<lparr>filename = att_name a, url = v\<rparr>], [GetAttachmentContent (att_id a)])
           (attachments_loop mailbox graph t after []))"
    unfolding attachments_loop_append[of mailbox graph t before "a # after"]
      attachments_loop_Cons[of mailbox graph t a after] one
    by (rule refl)
  have joined: "attachments_loop mailbox graph t (before @ a # after) [] =
        (Inr (rb @ \<lparr>filename = att_name a, url = v\<rparr> # ra),
         snd (attachments_loop mailbox graph t before [])
           @ GetAttachmentContent (att_id a) # snd (attachments_loop mailbox graph t after []))"
    if rb: "fst (attachments_loop mailbox graph t before []) = Inr rb"
      and ra: "fst (attachments_loop mailbox graph t after []) = Inr ra" for rb ra
  proof -
    obtain qb where b: "attachments_loop mailbox graph t before [] = (Inr rb, qb)"
      using rb by (metis prod.collapse)
    obtain qa where a: "attachments_loop mailbox graph t after [] = (Inr ra, qa)"
      using ra by (metis prod.collapse)
    show ?thesis unfolding whole b a by simp
  qed
  show ?thesis
    unfolding prepare_with_token[OF assms(1)]
    using whole joined one by blast
qed

theorem reference_passes_through_witness:
  "fst (getGraphToken popup_login fresh) = Some ''tok''
   \<and> getAttachmentContent example_mailbox (att_id (att ''1'' ''a'')) = Inr (ContentUrl ''https://host/file'')
   \<and> fst (prepareAirtableAttachments popup_login example_mailbox example_graph fresh [att ''1'' ''a''])
       = (Inr [\<lparr>filename = ''a'', url = ''https://host/file''\<rparr>], [GetAttachmentContent ''1''])"
proof -
  have h1: "fst (getGraphToken popup_login fresh) = Some ''tok''"
    by (simp add: getGraphToken_def acquire_popup_def popup_login_def fresh_def truthy_def)
  have h2: "getAttachmentContent example_mailbox (att_id (att ''1'' ''a'')) = Inr (ContentUrl ''https://host/file'')"
    by (simp add: getAttachmentContent_def resolve_content_def example_mailbox_def att_def)
  from reference_passes_through[where msal = popup_login and st = fresh and t = "''tok''"
      and mailbox = example_mailbox and a = "att ''1'' ''a''" and v = "''https://host/file''"
      and graph = example_graph and before = "[]" and after = "[]", OF h1 h2,
      THEN conjunct2, THEN conjunct2]
  have "fst (prepareAirtableAttachments popup_login example_mailbox example_graph fresh [att ''1'' ''a''])
       = (Inr [\<lparr>filename = ''a'', url = ''https://host/file''\<rparr>], [GetAttachmentContent ''1''])"
    by (simp add: att_def)
  with h1 h2 show ?thesis by blast
qed




end
